theory Spec2Isabelle
  imports Main "HOL-Library.Word" "HOL-Library.Sublist"
begin

section \<open>Support/Error.hpp: Error\<close>

text \<open>
  Modelled from the spec: \<^verbatim>\<open>source_location\<close> is declared in a header that is not among
  the sources. An Error holds "a capture of the call site that raised it"; only its text
  matters here, so it is a string (the default-constructed one is empty).
\<close>

type_synonym source_location = string

text \<open>
  \<^verbatim>\<open>class Error { std::string message_; std::string reason_; source_location loc_; }\<close>
\<close>

record Error =
  message :: string
  reason :: string
  loc :: source_location

text \<open>\<^verbatim>\<open>Error() noexcept = default\<close> and \<^verbatim>\<open>Error::success() { return Error(); }\<close>\<close>

definition Error_default :: Error where
  "Error_default = \<lparr>message = [], reason = [], loc = []\<rparr>"

definition Error_success :: Error where
  "Error_success = Error_default"

text \<open>\<^verbatim>\<open>failed() { return ! message_.empty(); }\<close>\<close>

definition failed :: "Error \<Rightarrow> bool" where
  "failed e = (\<not> (message e = []))"

text \<open>
  Modelled from the spec: the private helper \<^verbatim>\<open>Error::appendSourceLocation\<close> is declared
  in Error.hpp and defined in a file that is not among the sources. The text keeps the
  reason as a prefix and appends the location in parentheses.
\<close>

definition appendSourceLocation :: "string \<Rightarrow> source_location \<Rightarrow> string" where
  "appendSourceLocation s sl = s @ '' ('' @ sl @ '')''"

text \<open>
  Modelled from the spec: \<^verbatim>\<open>Error(std::string reason, source_location loc)\<close> is declared in
  Error.hpp and defined elsewhere. The spec: "constructs a failed error from free text".
\<close>

definition Error_reason :: "string \<Rightarrow> source_location \<Rightarrow> Error" where
  "Error_reason text sl =
     \<lparr>message = appendSourceLocation text sl, reason = text, loc = sl\<rparr>"

text \<open>
  \<^verbatim>\<open>std::error_code\<close>: a value (zero is "no error") and the message of its category.
\<close>

record error_code =
  ec_value :: int
  ec_message :: string

definition ec_set :: "error_code \<Rightarrow> bool" where
  "ec_set ec = (ec_value ec \<noteq> 0)"

definition ec_none :: error_code where
  "ec_none = \<lparr>ec_value = 0, ec_message = []\<rparr>"

text \<open>
  Modelled from the spec: \<^verbatim>\<open>Error(std::error_code const& ec, source_location loc)\<close> is
  declared in Error.hpp and defined elsewhere: success for a clear code, otherwise the
  error built from the code's message.
\<close>

definition Error_ec :: "error_code \<Rightarrow> source_location \<Rightarrow> Error" where
  "Error_ec ec sl = (if ec_set ec then Error_reason (ec_message ec) sl else Error_default)"

text \<open>
  Modelled from the spec: \<^verbatim>\<open>Error(std::vector<Error> const& errors, source_location loc)\<close>
  is declared in Error.hpp (with its doc comment) and defined elsewhere. The spec: the
  "result is success iff every element is success or the list is empty; otherwise its
  message is the concatenation of all non-empty messages, separated so each contributing
  error remains distinguishable". The separator is a newline.
\<close>

fun join_lines :: "string list \<Rightarrow> string" where
  "join_lines [] = []"
| "join_lines [m] = m"
| "join_lines (m # n # ms) = m @ [CHR 0x0A] @ join_lines (n # ms)"

definition Error_vector :: "Error list \<Rightarrow> source_location \<Rightarrow> Error" where
  "Error_vector errs sl =
     (let msgs = filter (\<lambda>m. m \<noteq> []) (map message errs)
      in if msgs = [] then Error_default
         else \<lparr>message = join_lines msgs, reason = join_lines msgs, loc = sl\<rparr>)"

text \<open>
  What leaves a function other than its result: \<^verbatim>\<open>Error::Throw()\<close> throws
  \<^verbatim>\<open>Exception(*this)\<close>; an exception that reaches a \<^verbatim>\<open>noexcept\<close> boundary ends the
  program (\<^verbatim>\<open>std::terminate\<close>); a failed \<^verbatim>\<open>MRDOX_ASSERT\<close> aborts.
\<close>

datatype unwind = Exception Error | Terminate | AssertionFailed

section \<open>Support/Error.hpp: Expected\<close>

text \<open>
  \<^verbatim>\<open>union { T v_; Error e_; }; bool has_error_;\<close>: the discriminant selects the live
  member, so the container is a two-constructor datatype.
\<close>

datatype 'a Expected = Holds_v (the_v: 'a) | Holds_e (the_e: Error)

fun has_error_flag :: "'a Expected \<Rightarrow> bool" where
  "has_error_flag (Holds_v v) = False"
| "has_error_flag (Holds_e e) = True"

definition has_value :: "'a Expected \<Rightarrow> bool" where
  "has_value x = (\<not> has_error_flag x)"

definition has_error :: "'a Expected \<Rightarrow> bool" where
  "has_error x = has_error_flag x"

text \<open>
  \<^verbatim>\<open>Expected(Error err) noexcept : has_error_(true) { MRDOX_ASSERT(err.failed()); ... }\<close>
  and \<^verbatim>\<open>Expected(U&& u) : has_error_(false)\<close>.
\<close>

definition Expected_of_Error :: "Error \<Rightarrow> unwind + 'a Expected" where
  "Expected_of_Error err = (if failed err then Inr (Holds_e err) else Inl AssertionFailed)"

definition Expected_of_value :: "'a \<Rightarrow> 'a Expected" where
  "Expected_of_value u = Holds_v u"

text \<open>
  \<^verbatim>\<open>value() &\<close> and \<^verbatim>\<open>value() const&\<close>:
  \<^verbatim>\<open>if(has_value()) return v_; e_.Throw();\<close>
\<close>

definition Expected_value :: "'a Expected \<Rightarrow> unwind + 'a" where
  "Expected_value x = (if has_value x then Inr (the_v x) else Inl (Exception (the_e x)))"

text \<open>
  \<^verbatim>\<open>release() noexcept { return std::move(value()); }\<close>. The result is move-constructed
  from \<^verbatim>\<open>v_\<close>, which stays the live member in its moved-from state; \<open>moved\<close> says what a
  moved-from \<^verbatim>\<open>T\<close> holds (the identity for a trivially copyable \<^verbatim>\<open>T\<close>). The discriminant
  is not written. A throw from \<^verbatim>\<open>value()\<close> meets \<^verbatim>\<open>noexcept\<close>.
\<close>

definition release :: "('a \<Rightarrow> 'a) \<Rightarrow> 'a Expected \<Rightarrow> unwind + ('a \<times> 'a Expected)" where
  "release moved x =
     (case Expected_value x of
        Inl u \<Rightarrow> Inl Terminate
      | Inr v \<Rightarrow> Inr (v, Holds_v (moved v)))"

text \<open>\<^verbatim>\<open>value() && { return std::move(value()); }\<close>: as \<^verbatim>\<open>release\<close>, but the throw passes.\<close>

definition Expected_value_rvalue ::
  "('a \<Rightarrow> 'a) \<Rightarrow> 'a Expected \<Rightarrow> unwind + ('a \<times> 'a Expected)" where
  "Expected_value_rvalue moved x =
     (case Expected_value x of
        Inl u \<Rightarrow> Inl u
      | Inr v \<Rightarrow> Inr (v, Holds_v (moved v)))"

text \<open>
  \<^verbatim>\<open>error() const& noexcept { if(has_error()) return e_; return Error::success(); }\<close>
\<close>

definition Expected_error :: "'a Expected \<Rightarrow> Error" where
  "Expected_error x = (if has_error x then the_e x else Error_success)"

text \<open>
  \<^verbatim>\<open>error() && noexcept { if(has_error()) return std::move(e_); return Error::success(); }\<close>:
  the moved-from \<^verbatim>\<open>e_\<close> stays the live member; \<open>moved\<close> says what it holds.
\<close>

definition Expected_error_rvalue ::
  "(Error \<Rightarrow> Error) \<Rightarrow> 'a Expected \<Rightarrow> Error \<times> 'a Expected" where
  "Expected_error_rvalue moved x =
     (if has_error x then (the_e x, Holds_e (moved (the_e x))) else (Error_success, x))"

section \<open>Support/Dom: Value, Array, Object\<close>

type_synonym int64 = "64 word"

text \<open>
  Modelled from the spec: the header that declares \<^verbatim>\<open>Value\<close>, \<^verbatim>\<open>Array\<close> and \<^verbatim>\<open>Object\<close> is
  not among the sources; part_000 defines their members. \<^verbatim>\<open>Value\<close> is a union tagged by
  \<^verbatim>\<open>kind_\<close>, over the kinds that \<^verbatim>\<open>isTruthy\<close> and the destructor switch on;
  \<^verbatim>\<open>Kind::Integer\<close> and \<^verbatim>\<open>Kind::Boolean\<close> both keep their payload in \<^verbatim>\<open>number_\<close>.
  \<^verbatim>\<open>Array\<close> and \<^verbatim>\<open>Object\<close> are handles to an \<^verbatim>\<open>Impl\<close> ("capability interfaces": an array
  "exposes index-based element access and a length", an object "key lookup, an ordered
  key enumeration, and an isEmpty capability"). An array implementation is given by its
  elements. An object implementation is given by its properties and by what its override
  of the virtual \<^verbatim>\<open>empty()\<close> reports, \<open>None\<close> when the class does not override it.
\<close>

datatype Value =
    Kind_Object (the_object: Object)
  | Kind_Array (the_array: Array)
  | Kind_String (the_string: string)
  | Kind_Integer (the_number: int64)
  | Kind_Boolean (the_number: int64)
  | Kind_Null
and Array = Array_Impl (elements: "Value list")
and Object = Object_Impl (empty_override: "bool option") (properties: "(string \<times> Value) list")

text \<open>
  \<^verbatim>\<open>bool Object::Impl::empty() const noexcept { // default to false
  return false; }\<close>
\<close>

definition Impl_empty :: "Object \<Rightarrow> bool" where
  "Impl_empty impl = False"

text \<open>
  Modelled from the spec: \<^verbatim>\<open>Object::empty()\<close> and \<^verbatim>\<open>Array::length()\<close> are declared in the
  missing header; the interface accessors "delegate to the active backing
  implementation". The virtual call reaches the override when there is one and
  \<^verbatim>\<open>Object::Impl::empty\<close> otherwise.
\<close>

definition Object_empty :: "Object \<Rightarrow> bool" where
  "Object_empty obj = (case empty_override obj of None \<Rightarrow> Impl_empty obj | Some b \<Rightarrow> b)"

definition Array_length :: "Array \<Rightarrow> nat" where
  "Array_length arr = length (elements arr)"

text \<open>
  The constructors of part_000: \<^verbatim>\<open>Value()\<close>, \<^verbatim>\<open>Value(bool b)\<close> (which stores
  \<^verbatim>\<open>number_(b)\<close>), \<^verbatim>\<open>Value(Array)\<close>, \<^verbatim>\<open>Value(Object)\<close>, \<^verbatim>\<open>Value(nullptr_t)\<close>, and the three
  string constructors, which all store the characters.
\<close>

definition Value_default :: Value where
  "Value_default = Kind_Null"

definition Value_bool :: "bool \<Rightarrow> Value" where
  "Value_bool b = Kind_Boolean (if b then 1 else 0)"

definition Value_Array :: "Array \<Rightarrow> Value" where
  "Value_Array arr = Kind_Array arr"

definition Value_Object :: "Object \<Rightarrow> Value" where
  "Value_Object obj = Kind_Object obj"

definition Value_nullptr :: Value where
  "Value_nullptr = Kind_Null"

definition Value_string :: "string \<Rightarrow> Value" where
  "Value_string s = Kind_String s"

text \<open>
  Modelled from the spec: the integer constructor is declared in the missing header
  ("construct from each native primitive (null, boolean, integer, ...)").
\<close>

definition Value_integer :: "int64 \<Rightarrow> Value" where
  "Value_integer n = Kind_Integer n"

text \<open>
  \<^verbatim>\<open>
  switch(kind_) {
  case Kind::Object: return object_.empty();
  case Kind::Array: return array_.length() > 0;
  case Kind::String: return string_.size() > 0;
  case Kind::Integer:
  case Kind::Boolean: return number_ != 0;
  case Kind::Null: return false;
  default: MRDOX_UNREACHABLE(); }
  \<close>
\<close>

fun isTruthy :: "Value \<Rightarrow> bool" where
  "isTruthy (Kind_Object obj) = Object_empty obj"
| "isTruthy (Kind_Array arr) = (Array_length arr > 0)"
| "isTruthy (Kind_String s) = (length s > 0)"
| "isTruthy (Kind_Integer n) = (n \<noteq> 0)"
| "isTruthy (Kind_Boolean n) = (n \<noteq> 0)"
| "isTruthy Kind_Null = False"

section \<open>The corpus\<close>

text \<open>
  Modelled from the spec: the metadata and corpus headers are not among the sources.
  A symbol record "has a stable identifier, a structural kind (is it a container kind
  that owns nested members, e.g. namespace/class, or a leaf kind), and nested member
  identifiers when it is a container". \<^verbatim>\<open>T::isRecord()\<close> is the kind test of the static
  type the visitor is instantiated with: it holds for a record (a class, struct or
  union) and for no other kind; the global namespace is of kind \<open>Namespace\<close>.
  \<^verbatim>\<open>Corpus::get\<close> looks a symbol up by its identifier, and \<^verbatim>\<open>globalNamespace()\<close> is the
  record of the root.
\<close>

type_synonym SymbolID = nat

datatype InfoKind = Namespace | Record | Function | Enum | Typedef | Variable

record Info =
  Info_id :: SymbolID
  Info_Kind :: InfoKind
  Members :: "SymbolID list"

definition isRecord :: "Info \<Rightarrow> bool" where
  "isRecord I = (Info_Kind I = Record)"

record Corpus =
  symbols :: "SymbolID \<rightharpoonup> Info"
  globalNamespaceID :: SymbolID

text \<open>
  Besides the ways of section Error, a call can fail to return because an identifier
  has no record in the corpus (the lookup asserts), or, in this model, because the
  recursion budget \<open>fuel\<close> of the visitor is used up: \<open>OutOfFuel\<close> stands for a call
  that has not returned within the given nesting depth.
\<close>

datatype stop = Unwind unwind | UnknownSymbol SymbolID | OutOfFuel

definition Corpus_get :: "Corpus \<Rightarrow> SymbolID \<Rightarrow> stop + Info" where
  "Corpus_get c i = (case symbols c i of None \<Rightarrow> Inl (UnknownSymbol i) | Some I \<Rightarrow> Inr I)"

definition globalNamespace :: "Corpus \<Rightarrow> stop + Info" where
  "globalNamespace c = Corpus_get c (globalNamespaceID c)"

text \<open>
  Modelled from the spec: \<^verbatim>\<open>Corpus::traverse(I, f)\<close> calls the visitor \<open>f\<close> on the record of
  every member of \<open>I\<close>, in the order of "its ordered member identifiers". It does not
  call \<open>f\<close> on \<open>I\<close> itself: the visitors below call it on the symbol they were just
  called with.
\<close>

fun traverse_members ::
  "Corpus \<Rightarrow> (Info \<Rightarrow> 's \<Rightarrow> stop + 's) \<Rightarrow> SymbolID list \<Rightarrow> 's \<Rightarrow> stop + 's" where
  "traverse_members c f [] s = Inr s"
| "traverse_members c f (i # ids) s =
     (case Corpus_get c i of
        Inl e \<Rightarrow> Inl e
      | Inr I \<Rightarrow> (case f I s of Inl e \<Rightarrow> Inl e | Inr s' \<Rightarrow> traverse_members c f ids s'))"

definition Corpus_traverse ::
  "Corpus \<Rightarrow> Info \<Rightarrow> (Info \<Rightarrow> 's \<Rightarrow> stop + 's) \<Rightarrow> 's \<Rightarrow> stop + 's" where
  "Corpus_traverse c I f s = traverse_members c f (Members I) s"

section \<open>-bitcode/BitcodeGenerator.cpp: what the builders write to\<close>

text \<open>
  The file system and the console, as the tasks of the multi-file builder see them.
  \<open>open_error\<close> and \<open>write_error\<close> say what opening a path for writing and writing to
  the opened file give (a clear code when the step succeeds); \<open>open_calls\<close> is the trace
  of the paths the builder tried to open.
\<close>

record World =
  files :: "string \<rightharpoonup> string"
  open_error :: "string \<Rightarrow> error_code"
  write_error :: "string \<Rightarrow> error_code"
  console :: "string list"
  open_calls :: "string list"

text \<open>
  \<^verbatim>\<open>llvm::raw_fd_ostream os(filePath, ec, fs::CD_CreateAlways)\<close>: on success the file
  exists and is empty, and the stream has no error; on failure \<open>ec\<close> is set.
  \<^verbatim>\<open>os.error()\<close> reads the stream's own code, which only a failed write sets.
\<close>

record raw_fd_ostream =
  os_path :: string
  os_error :: error_code

definition raw_fd_ostream_open ::
  "string \<Rightarrow> World \<Rightarrow> error_code \<times> raw_fd_ostream \<times> World" where
  "raw_fd_ostream_open p w =
     (let w1 = w\<lparr>open_calls := open_calls w @ [p]\<rparr>;
          os = \<lparr>os_path = p, os_error = ec_none\<rparr>
      in if ec_set (open_error w p) then (open_error w p, os, w1)
         else (ec_none, os, w1\<lparr>files := (files w1)(p \<mapsto> [])\<rparr>))"

definition raw_fd_ostream_write ::
  "raw_fd_ostream \<Rightarrow> string \<Rightarrow> World \<Rightarrow> raw_fd_ostream \<times> World" where
  "raw_fd_ostream_write os data w =
     (if ec_set (os_error os) then (os, w)
      else if ec_set (write_error w (os_path os))
      then (os\<lparr>os_error := write_error w (os_path os)\<rparr>, w)
      else (os, w\<lparr>files := (files w)(os_path os \<mapsto>
              (case files w (os_path os) of None \<Rightarrow> data | Some old \<Rightarrow> old @ data))\<rparr>))"

text \<open>
  \<^verbatim>\<open>llvm::sys::path::append(path, component)\<close>, POSIX style: a separator goes between
  the two unless one is already there or the path is empty.
\<close>

definition is_separator :: "char \<Rightarrow> bool" where
  "is_separator ch = (ch = CHR ''/'')"

definition path_append :: "string \<Rightarrow> string \<Rightarrow> string" where
  "path_append p part =
     (if p \<noteq> [] \<and> is_separator (last p) then p @ dropWhile is_separator part
      else if (part \<noteq> [] \<and> is_separator (hd part)) \<or> p = [] then p @ part
      else p @ ''/'' @ part)"

text \<open>
  \<^verbatim>\<open>reportError(Error const& err, fmt, args...)\<close> of Error.hpp:
  \<^verbatim>\<open>MRDOX_ASSERT(err.failed());
  reportError(fmt::format("Could not {} because {}", fmt::format(fs, args...), err.message()));\<close>
  where \<^verbatim>\<open>reportError(std::string_view)\<close> "reports an error to the console"; \<open>what\<close> is
  the formatted operation.
\<close>

definition reportError :: "Error \<Rightarrow> string \<Rightarrow> World \<Rightarrow> stop + World" where
  "reportError err what w =
     (if failed err
      then Inr (w\<lparr>console := console w @ [''Could not '' @ what @ '' because '' @ message err]\<rparr>)
      else Inl (Unwind AssertionFailed))"

text \<open>
  An \<^verbatim>\<open>std::ostream\<close> over a sink. \<open>written\<close> are the bytes the sink took. A write on a
  stream whose \<open>badbit\<close> is set does nothing. \<open>write_calls\<close> is the trace of the calls of
  \<^verbatim>\<open>write\<close>, and the sink refuses the bytes of the call whose index in that trace is
  \<open>sink_fails_at\<close>: a write of at least one byte that the sink refuses sets \<open>badbit\<close> and
  appends nothing, while a write of no bytes asks nothing of the sink and leaves the
  stream good.
\<close>

record ostream =
  written :: string
  badbit :: bool
  write_calls :: "string list"
  sink_fails_at :: "nat option"

definition ostream_write :: "ostream \<Rightarrow> string \<Rightarrow> ostream" where
  "ostream_write os data =
     (let os1 = os\<lparr>write_calls := write_calls os @ [data]\<rparr>
      in if badbit os then os1
         else if data \<noteq> [] \<and> sink_fails_at os = Some (length (write_calls os))
         then os1\<lparr>badbit := True\<rparr>
         else os1\<lparr>written := written os @ data\<rparr>)"

section \<open>-bitcode/BitcodeGenerator.cpp: MultiFileBuilder\<close>

text \<open>
  Modelled from the spec: \<^verbatim>\<open>TaskGroup\<close> (Support/ThreadPool.hpp) is not among the sources.
  After all tasks are submitted "the engine waits for every submitted task to finish and
  aggregates all reported per-task Errors". A task is a callable that returns nothing,
  so the Error it hands to the group is the one it throws. Each task is run to its end
  when it is submitted: the tasks of the builder share only the console and write to
  paths of their own.
\<close>

record TaskGroup =
  errors :: "Error list"

definition TaskGroup_new :: TaskGroup where
  "TaskGroup_new = \<lparr>errors = []\<rparr>"

definition TaskGroup_async ::
  "(World \<Rightarrow> stop + World) \<Rightarrow> TaskGroup \<times> World \<Rightarrow> stop + TaskGroup \<times> World" where
  "TaskGroup_async task s =
     (case task (snd s) of
        Inr w \<Rightarrow> Inr (fst s, w)
      | Inl (Unwind (Exception e)) \<Rightarrow> Inr ((fst s)\<lparr>errors := errors (fst s) @ [e]\<rparr>, snd s)
      | Inl e \<Rightarrow> Inl e)"

definition TaskGroup_wait :: "TaskGroup \<Rightarrow> Error list" where
  "TaskGroup_wait g = errors g"

text \<open>
  The members of the builder that do not change during a build. \<^verbatim>\<open>SafeNames\<close> and
  \<^verbatim>\<open>writeBitcode\<close> are not among the sources: \<open>names\<close> is what \<^verbatim>\<open>names_.get\<close> returns, and
  \<open>writeBitcode\<close> the bytes of a symbol's encoding.
\<close>

record MultiFileBuilder =
  corpus :: Corpus
  outputPath :: string
  names :: "SymbolID \<Rightarrow> string"
  writeBitcode :: "Info \<Rightarrow> string"

definition filePath :: "MultiFileBuilder \<Rightarrow> Info \<Rightarrow> string" where
  "filePath b I = path_append (outputPath b) (names b (Info_id I)) @ ''.bc''"

text \<open>
  The task that \<^verbatim>\<open>operator()\<close> submits:
  \<^verbatim>\<open>
  llvm::SmallString<512> filePath(outputPath_);
  llvm::StringRef name = names_.get(I.id);
  path::append(filePath, name);
  filePath.append(".bc");
  std::error_code ec;
  llvm::raw_fd_ostream os(filePath, ec, fs::CD_CreateAlways);
  if(ec) { reportError(Error(ec), "open \"{}\"", filePath); return; }
  auto bc = writeBitcode(I);
  if(auto ec = os.error()) { reportError(Error(ec), "write \"{}\"", filePath); return; }
  os.write(bc.data.data(), bc.data.size());
  \<close>
\<close>

definition here :: source_location where
  "here = ''BitcodeGenerator.cpp''"

definition MultiFileBuilder_task :: "MultiFileBuilder \<Rightarrow> Info \<Rightarrow> World \<Rightarrow> stop + World" where
  "MultiFileBuilder_task b I w =
     (case raw_fd_ostream_open (filePath b I) w of (ec, os, w1) \<Rightarrow>
        if ec_set ec
        then reportError (Error_ec ec here) (''open \"'' @ filePath b I @ ''\"'') w1
        else let bc = writeBitcode b I
             in if ec_set (os_error os)
                then reportError (Error_ec (os_error os) here)
                       (''write \"'' @ filePath b I @ ''\"'') w1
                else Inr (snd (raw_fd_ostream_write os bc w1)))"

text \<open>
  \<^verbatim>\<open>
  template<class T> void operator()(T const& I) {
      taskGroup_.async([&] { ... });
      if constexpr(T::isRecord())
          corpus_.traverse(I, *this);
  }
  \<close>
  The state is \<^verbatim>\<open>taskGroup_\<close> and the world.
\<close>

primrec MultiFileBuilder_call ::
  "nat \<Rightarrow> MultiFileBuilder \<Rightarrow> Info \<Rightarrow> TaskGroup \<times> World \<Rightarrow> stop + TaskGroup \<times> World" where
  "MultiFileBuilder_call 0 b I s = Inl OutOfFuel"
| "MultiFileBuilder_call (Suc fuel) b I s =
     (case TaskGroup_async (MultiFileBuilder_task b I) s of
        Inl e \<Rightarrow> Inl e
      | Inr s1 \<Rightarrow>
          if isRecord I then Corpus_traverse (corpus b) I (MultiFileBuilder_call fuel b) s1
          else Inr s1)"

text \<open>
  \<^verbatim>\<open>
  Error build() {
      corpus_.traverse(corpus_.globalNamespace(), *this);
      auto errors = taskGroup_.wait();
      if(! errors.empty()) return Error(errors);
      return Error::success();
  }
  \<close>
  The task group is the builder's own, new with the builder.
\<close>

definition MultiFileBuilder_build ::
  "nat \<Rightarrow> MultiFileBuilder \<Rightarrow> World \<Rightarrow> stop + Error \<times> World" where
  "MultiFileBuilder_build fuel b w =
     (case globalNamespace (corpus b) of
        Inl e \<Rightarrow> Inl e
      | Inr G \<Rightarrow>
          (case Corpus_traverse (corpus b) G (MultiFileBuilder_call fuel b) (TaskGroup_new, w) of
             Inl e \<Rightarrow> Inl e
           | Inr s \<Rightarrow>
               (let errs = TaskGroup_wait (fst s)
                in if errs \<noteq> [] then Inr (Error_vector errs here, snd s)
                   else Inr (Error_success, snd s))))"

section \<open>-bitcode/BitcodeGenerator.cpp: SingleFileBuilder\<close>

text \<open>
  \<^verbatim>\<open>
  template<class T> void operator()(T const& I) {
      auto bc = writeBitcode(I);
      os_.write(bc.data.data(), bc.data.size());
      if constexpr(T::isRecord())
          corpus_.traverse(I, *this);
  }
  \<close>
\<close>

primrec SingleFileBuilder_call ::
  "nat \<Rightarrow> (Info \<Rightarrow> string) \<Rightarrow> Corpus \<Rightarrow> Info \<Rightarrow> ostream \<Rightarrow> stop + ostream" where
  "SingleFileBuilder_call 0 wb c I os = Inl OutOfFuel"
| "SingleFileBuilder_call (Suc fuel) wb c I os =
     (let bc = wb I;
          os1 = ostream_write os bc
      in if isRecord I then Corpus_traverse c I (SingleFileBuilder_call fuel wb c) os1
         else Inr os1)"

text \<open>
  \<^verbatim>\<open>
  Error build() {
      corpus_.traverse(corpus_.globalNamespace(), *this);
      return Error::success();
  }
  \<close>
\<close>

definition SingleFileBuilder_build ::
  "nat \<Rightarrow> (Info \<Rightarrow> string) \<Rightarrow> Corpus \<Rightarrow> ostream \<Rightarrow> stop + Error \<times> ostream" where
  "SingleFileBuilder_build fuel wb c os =
     (case globalNamespace c of
        Inl e \<Rightarrow> Inl e
      | Inr G \<Rightarrow>
          (case Corpus_traverse c G (SingleFileBuilder_call fuel wb c) os of
             Inl e \<Rightarrow> Inl e
           | Inr os' \<Rightarrow> Inr (Error_success, os')))"

text \<open>
  \<^verbatim>\<open>BitcodeGenerator::build\<close> is \<^verbatim>\<open>MultiFileBuilder(outputPath, corpus).build()\<close> and
  \<^verbatim>\<open>BitcodeGenerator::buildOne\<close> is \<^verbatim>\<open>SingleFileBuilder(os, corpus).build()\<close>.
\<close>

definition build ::
  "nat \<Rightarrow> (SymbolID \<Rightarrow> string) \<Rightarrow> (Info \<Rightarrow> string) \<Rightarrow> string \<Rightarrow> Corpus \<Rightarrow> World
     \<Rightarrow> stop + Error \<times> World" where
  "build fuel nm wb out c w =
     MultiFileBuilder_build fuel
       \<lparr>corpus = c, outputPath = out, names = nm, writeBitcode = wb\<rparr> w"

definition buildOne ::
  "nat \<Rightarrow> (Info \<Rightarrow> string) \<Rightarrow> ostream \<Rightarrow> Corpus \<Rightarrow> stop + Error \<times> ostream" where
  "buildOne fuel wb os c = SingleFileBuilder_build fuel wb c os"

section \<open>Well-formed corpora\<close>

text \<open>
  A corpus is well formed when it is a tree rooted at the global namespace: there is a
  tree of symbols, with pairwise distinct identifiers, whose root is the global
  namespace and each of whose nodes is recorded in the corpus under its identifier with
  its kind and, as members, its children in order.
\<close>

datatype SymbolTree = Node SymbolID InfoKind "SymbolTree list"

fun tree_id :: "SymbolTree \<Rightarrow> SymbolID" where
  "tree_id (Node i k ts) = i"

fun children :: "SymbolTree \<Rightarrow> SymbolTree list" where
  "children (Node i k ts) = ts"

fun tree_info :: "SymbolTree \<Rightarrow> Info" where
  "tree_info (Node i k ts) = \<lparr>Info_id = i, Info_Kind = k, Members = map tree_id ts\<rparr>"

fun nodes :: "SymbolTree \<Rightarrow> SymbolTree list" where
  "nodes (Node i k ts) = Node i k ts # concat (map nodes ts)"

definition recorded :: "Corpus \<Rightarrow> SymbolTree \<Rightarrow> bool" where
  "recorded c t = list_all (\<lambda>n. symbols c (tree_id n) = Some (tree_info n)) (nodes t)"

definition is_tree :: "Corpus \<Rightarrow> SymbolTree \<Rightarrow> bool" where
  "is_tree c t =
     (globalNamespaceID c = tree_id t \<and> recorded c t \<and> distinct (map tree_id (nodes t)))"

text \<open>
  The symbols a visitor of the two builders is called with when it is called with the
  root of \<open>t\<close>, in order: the root, and the symbols below it only when it is a record.
  A build starts at the members of the global namespace.
\<close>

fun visits :: "SymbolTree \<Rightarrow> Info list" where
  "visits (Node i k ts) =
     tree_info (Node i k ts) # (if k = Record then concat (map visits ts) else [])"

definition visited :: "SymbolTree \<Rightarrow> Info list" where
  "visited t = concat (map visits (children t))"

text \<open>Every container other than the root that has members is a record.\<close>

definition containers_are_records :: "SymbolTree \<Rightarrow> bool" where
  "containers_are_records t =
     list_all (\<lambda>n. case n of Node i k ts \<Rightarrow> ts = [] \<or> k = Record) (concat (map nodes (children t)))"

text \<open>
  The nesting depth of a tree: the visitors need one unit of \<open>fuel\<close> for each level
  below the root.
\<close>

fun depth :: "SymbolTree \<Rightarrow> nat" where
  "depth (Node i k ts) = Suc (foldr (\<lambda>t m. max (depth t) m) ts 0)"

text \<open>The corpus that records the nodes of a tree.\<close>

definition corpus_of :: "SymbolTree \<Rightarrow> Corpus" where
  "corpus_of t =
     \<lparr>symbols = map_of (map (\<lambda>n. (tree_id n, tree_info n)) (nodes t)),
      globalNamespaceID = tree_id t\<rparr>"

section \<open>Vocabulary of the proofs\<close>

text \<open>
  Both visitors do something with the symbol they are called with and then, for a
  record, traverse its members: \<open>visit_gen\<close> is that shape for any action, and
  \<open>run_all\<close> runs an action over a list of symbols, stopping where the action stops.
\<close>

fun run_all :: "(Info \<Rightarrow> 's \<Rightarrow> stop + 's) \<Rightarrow> Info list \<Rightarrow> 's \<Rightarrow> stop + 's" where
  "run_all act [] s = Inr s"
| "run_all act (I # Is) s = (case act I s of Inl e \<Rightarrow> Inl e | Inr s' \<Rightarrow> run_all act Is s')"

primrec visit_gen ::
  "nat \<Rightarrow> Corpus \<Rightarrow> (Info \<Rightarrow> 's \<Rightarrow> stop + 's) \<Rightarrow> Info \<Rightarrow> 's \<Rightarrow> stop + 's" where
  "visit_gen 0 c act I s = Inl OutOfFuel"
| "visit_gen (Suc n) c act I s =
     (case act I s of
        Inl e \<Rightarrow> Inl e
      | Inr s1 \<Rightarrow> if isRecord I then Corpus_traverse c I (visit_gen n c act) s1 else Inr s1)"

definition write_all :: "(Info \<Rightarrow> string) \<Rightarrow> Info list \<Rightarrow> ostream \<Rightarrow> ostream" where
  "write_all wb Is os = foldl (\<lambda>os I. ostream_write os (wb I)) os Is"

text \<open>The line a task prints when the file of symbol \<open>I\<close> cannot be opened.\<close>

definition open_report :: "MultiFileBuilder \<Rightarrow> World \<Rightarrow> Info \<Rightarrow> string" where
  "open_report b w I =
     ''Could not open \"'' @ filePath b I @ ''\" because ''
       @ message (Error_ec (open_error w (filePath b I)) here)"

definition no_write_fails :: "MultiFileBuilder \<Rightarrow> World \<Rightarrow> Info list \<Rightarrow> bool" where
  "no_write_fails b w Is = list_all (\<lambda>I. \<not> ec_set (write_error w (filePath b I))) Is"

section \<open>Example corpora\<close>

text \<open>
  A namespace \<open>A\<close> with a function \<open>m\<close> in the global namespace; and a class \<open>A\<close> with a
  member function \<open>m\<close>, beside a function \<open>f\<close>.
\<close>

definition nested_namespaces :: SymbolTree where
  "nested_namespaces = Node 0 Namespace [Node 1 Namespace [Node 2 Function []]]"

definition class_and_function :: SymbolTree where
  "class_and_function =
     Node 0 Namespace [Node 1 Record [Node 2 Function []], Node 3 Function []]"

definition ex_names :: "SymbolID \<Rightarrow> string" where
  "ex_names i =
     (if i = 1 then ''A'' else if i = 2 then ''m'' else if i = 3 then ''f'' else ''global'')"

definition ex_writeBitcode :: "Info \<Rightarrow> string" where
  "ex_writeBitcode I = ''<'' @ ex_names (Info_id I) @ ''>''"

text \<open>An empty file system in which the path \<open>p\<close> cannot be opened for writing.\<close>

definition read_only :: "string \<Rightarrow> World" where
  "read_only p =
     \<lparr>files = Map.empty,
      open_error = (\<lambda>q. if q = p then \<lparr>ec_value = 13, ec_message = ''Permission denied''\<rparr>
                         else ec_none),
      write_error = (\<lambda>q. ec_none),
      console = [],
      open_calls = []\<rparr>"

text \<open>A fresh stream whose sink refuses the first write, and one whose sink takes all.\<close>

definition failing_sink :: ostream where
  "failing_sink = \<lparr>written = [], badbit = False, write_calls = [], sink_fails_at = Some 0\<rparr>"

definition good_sink :: ostream where
  "good_sink = \<lparr>written = [], badbit = False, write_calls = [], sink_fails_at = None\<rparr>"

section \<open>Theorems\<close>

subsection \<open>Dom values\<close>

text \<open>
  C10. An object implementation that does not override \<^verbatim>\<open>empty()\<close> reports non-empty:
  the default \<^verbatim>\<open>Object::Impl::empty()\<close> returns false, and so does \<^verbatim>\<open>Object::empty()\<close> on
  such an object.
\<close>

theorem Impl_empty_default:
  "Impl_empty impl = False \<and> (empty_override obj = None \<longrightarrow> Object_empty obj = False)"
  by (simp add: Impl_empty_def Object_empty_def)

theorem Impl_empty_default_witness:
  "empty_override (Object_Impl None [(''name'', Kind_String ''f'')]) = None
   \<and> Object_empty (Object_Impl None [(''name'', Kind_String ''f'')]) = False"
  using Impl_empty_default [of "Object_Impl None []" "Object_Impl None [(''name'', Kind_String ''f'')]"]
  by simp

text \<open>
  C2. The claim: a value whose active member is an object is truthy unless its
  implementation reports empty. The \<^verbatim>\<open>Kind::Object\<close> branch returns \<^verbatim>\<open>object_.empty()\<close>
  itself, without the negation its sibling branches for arrays and strings amount to,
  so an object that does not override \<^verbatim>\<open>empty()\<close> (and so is not empty) is not truthy,
  and an object that reports empty is.
\<close>

theorem isTruthy_Object_failing_input:
  "Object_empty (Object_Impl None [(''name'', Kind_String ''f'')]) = False
   \<and> isTruthy (Value_Object (Object_Impl None [(''name'', Kind_String ''f'')])) = False
   \<and> Object_empty (Object_Impl (Some True) []) = True
   \<and> isTruthy (Value_Object (Object_Impl (Some True) [])) = True"
  by (simp add: Value_Object_def Object_empty_def Impl_empty_def)

text \<open>
  C5. A value constructed from a non-empty string, a non-empty array, \<^verbatim>\<open>true\<close> or a
  non-zero integer is truthy; a value constructed as null, from an empty string, an empty
  array, \<^verbatim>\<open>false\<close> or zero is not.
\<close>

theorem isTruthy_primitives:
  "(s \<noteq> [] \<longrightarrow> isTruthy (Value_string s))
   \<and> (0 < Array_length arr \<longrightarrow> isTruthy (Value_Array arr))
   \<and> isTruthy (Value_bool True)
   \<and> (n \<noteq> 0 \<longrightarrow> isTruthy (Value_integer n))
   \<and> \<not> isTruthy Value_default
   \<and> \<not> isTruthy Value_nullptr
   \<and> \<not> isTruthy (Value_string [])
   \<and> (Array_length arr = 0 \<longrightarrow> \<not> isTruthy (Value_Array arr))
   \<and> \<not> isTruthy (Value_bool False)
   \<and> \<not> isTruthy (Value_integer 0)"
  by (simp add: Value_string_def Value_Array_def Value_bool_def Value_integer_def
      Value_default_def Value_nullptr_def)

theorem isTruthy_primitives_witness:
  "isTruthy (Value_string ''doc'')
   \<and> 0 < Array_length (Array_Impl [Kind_Null])
   \<and> isTruthy (Value_Array (Array_Impl [Kind_Null]))
   \<and> isTruthy (Value_integer (- 1))
   \<and> Array_length (Array_Impl []) = 0
   \<and> \<not> isTruthy (Value_Array (Array_Impl []))"
  using isTruthy_primitives [of "''doc''" "Array_Impl [Kind_Null]" "- 1"]
    isTruthy_primitives [of "[]" "Array_Impl []" 0]
  by (simp add: Array_length_def)

subsection \<open>Expected\<close>

text \<open>
  C9. For an \<^verbatim>\<open>Expected<T>\<close> that holds a value, both overloads of \<^verbatim>\<open>error()\<close> return
  \<^verbatim>\<open>Error::success()\<close>, for which \<^verbatim>\<open>failed()\<close> is false, and the rvalue overload leaves the
  container as it was. Neither overload has a path that raises.
\<close>

theorem error_of_held_value:
  "has_value x \<Longrightarrow>
     Expected_error x = Error_success
     \<and> \<not> failed (Expected_error x)
     \<and> Expected_error_rvalue moved x = (Error_success, x)
     \<and> \<not> failed (fst (Expected_error_rvalue moved x))"
  by (simp add: has_value_def has_error_def Expected_error_def Expected_error_rvalue_def
      Error_success_def Error_default_def failed_def)

theorem error_of_held_value_witness:
  "has_value (Expected_of_value (5::int))
   \<and> \<not> failed (Expected_error (Expected_of_value (5::int)))
   \<and> \<not> failed (fst (Expected_error_rvalue (\<lambda>e. Error_default) (Expected_of_value (5::int))))"
proof -
  have h: "has_value (Expected_of_value (5::int))"
    by (simp add: has_value_def Expected_of_value_def)
  from error_of_held_value [OF h, of "\<lambda>e. Error_default"] h show ?thesis by blast
qed

text \<open>
  C6, as stated: after \<^verbatim>\<open>release()\<close> a call of \<^verbatim>\<open>value()\<close> raises. It does not: for an
  \<^verbatim>\<open>Expected<int>\<close> holding 5, and for an \<^verbatim>\<open>Expected<std::string>\<close> whose moved-from
  string is empty, \<^verbatim>\<open>release()\<close> leaves a container on which \<^verbatim>\<open>value()\<close> returns.
\<close>

theorem value_after_release_counterexample:
  "release (\<lambda>v. v) (Expected_of_value (5::int)) = Inr (5, Holds_v 5)
   \<and> Expected_value (Holds_v (5::int)) = Inr 5
   \<and> release (\<lambda>v. []) (Expected_of_value ''doc'') = Inr (''doc'', Holds_v [])
   \<and> Expected_value (Holds_v ([]::string)) = Inr []"
  by (simp add: release_def Expected_value_def Expected_of_value_def has_value_def)

text \<open>
  C6, amended. For an \<^verbatim>\<open>Expected<T>\<close> that holds a value, \<^verbatim>\<open>release()\<close> returns that value
  and does not write the discriminant: the container still has a value (the moved-from
  one), and a following \<^verbatim>\<open>value()\<close> returns it without raising.
\<close>

theorem value_after_release:
  "has_value x \<Longrightarrow>
     release moved x = Inr (the_v x, Holds_v (moved (the_v x)))
     \<and> has_value (Holds_v (moved (the_v x)))
     \<and> Expected_value (Holds_v (moved (the_v x))) = Inr (moved (the_v x))"
  by (simp add: release_def Expected_value_def has_value_def)

theorem value_after_release_witness:
  "has_value (Expected_of_value ''doc'')
   \<and> release (\<lambda>v. []) (Expected_of_value ''doc'') = Inr (''doc'', Holds_v [])
   \<and> Expected_value (Holds_v ([]::string)) = Inr []"
proof -
  have h: "has_value (Expected_of_value ''doc'')"
    by (simp add: has_value_def Expected_of_value_def)
  from value_after_release [OF h, of "\<lambda>v. []"] h show ?thesis
    by (simp add: Expected_of_value_def)
qed

subsection \<open>Aggregated errors\<close>

lemma sublist_join_lines: "m \<in> set ms \<Longrightarrow> sublist m (join_lines ms)"
proof (induction ms rule: join_lines.induct)
  case 1
  then show ?case by simp
next
  case (2 m')
  then show ?case by simp
next
  case (3 a b ms)
  show ?case
  proof (cases "m = a")
    case True
    then show ?thesis by simp
  next
    case False
    with 3 have "sublist m (join_lines (b # ms))" by simp
    then obtain ps ss where "join_lines (b # ms) = ps @ m @ ss"
      by (auto simp: sublist_def)
    then have "join_lines (a # b # ms) = (a @ [CHR 0x0A] @ ps) @ m @ ss"
      by simp
    then show ?thesis unfolding sublist_def by blast
  qed
qed

text \<open>
  C4. \<^verbatim>\<open>Error(vector<Error>)\<close> is a failure exactly when some element of the list is one
  (so it is success for the empty list and for a list of successes), and then its
  message contains the message of every failing element as a contiguous substring.
\<close>

theorem Error_vector_aggregate:
  "(failed (Error_vector errs sl) \<longleftrightarrow> (\<exists>e\<in>set errs. failed e))
   \<and> (\<forall>e\<in>set errs. failed e \<longrightarrow> sublist (message e) (message (Error_vector errs sl)))"
proof -
  let ?msgs = "filter (\<lambda>m. m \<noteq> []) (map message errs)"
  have mem: "message e \<in> set ?msgs" if "e \<in> set errs" "failed e" for e
    using that by (auto simp: failed_def)
  have none: "?msgs = []" if "\<not> (\<exists>e\<in>set errs. failed e)"
    using that by (auto simp: failed_def filter_empty_conv)
  have b: "sublist (message e) (message (Error_vector errs sl))"
    if "e \<in> set errs" "failed e" for e
  proof -
    from mem [OF that] have "sublist (message e) (join_lines ?msgs)"
      by (rule sublist_join_lines)
    moreover from mem [OF that] have "?msgs \<noteq> []"
      by (metis empty_iff empty_set)
    ultimately show ?thesis by (simp add: Error_vector_def Let_def)
  qed
  have a1: "failed (Error_vector errs sl)" if "e \<in> set errs" "failed e" for e
    using b [OF that] that(2) by (auto simp: failed_def)
  have a2: "\<not> failed (Error_vector errs sl)" if "\<not> (\<exists>e\<in>set errs. failed e)"
    using none [OF that] by (simp add: Error_vector_def Let_def failed_def Error_default_def)
  from a1 a2 b show ?thesis by blast
qed

theorem Error_vector_aggregate_witness:
  "failed (Error_vector [Error_success, Error_reason ''open'' ''a.cpp:1'',
      Error_reason ''write'' ''b.cpp:2''] ''c.cpp:3'')
   \<and> sublist ''open (a.cpp:1)'' (message (Error_vector [Error_success,
      Error_reason ''open'' ''a.cpp:1'', Error_reason ''write'' ''b.cpp:2''] ''c.cpp:3''))
   \<and> sublist ''write (b.cpp:2)'' (message (Error_vector [Error_success,
      Error_reason ''open'' ''a.cpp:1'', Error_reason ''write'' ''b.cpp:2''] ''c.cpp:3''))
   \<and> \<not> failed (Error_vector [Error_success, Error_success] ''c.cpp:3'')
   \<and> \<not> failed (Error_vector [] ''c.cpp:3'')"
  using Error_vector_aggregate [of "[Error_success, Error_reason ''open'' ''a.cpp:1'',
      Error_reason ''write'' ''b.cpp:2'']" "''c.cpp:3''"]
    Error_vector_aggregate [of "[Error_success, Error_success]" "''c.cpp:3''"]
    Error_vector_aggregate [of "[]" "''c.cpp:3''"]
  by (simp add: failed_def Error_success_def Error_default_def Error_reason_def
      appendSourceLocation_def)

subsection \<open>The traversal of a well-formed corpus\<close>

lemma run_all_append:
  "run_all act (xs @ ys) s
     = (case run_all act xs s of Inl e \<Rightarrow> Inl e | Inr s' \<Rightarrow> run_all act ys s')"
  by (induction xs arbitrary: s) (auto split: sum.splits)

lemma MultiFileBuilder_call_gen:
  "MultiFileBuilder_call n b
     = visit_gen n (corpus b) (\<lambda>I. TaskGroup_async (MultiFileBuilder_task b I))"
proof (induction n)
  case 0
  show ?case by (intro ext) simp
next
  case (Suc n)
  show ?case
    by (intro ext) (simp only: MultiFileBuilder_call.simps visit_gen.simps Suc)
qed

lemma SingleFileBuilder_call_gen:
  "SingleFileBuilder_call n wb c = visit_gen n c (\<lambda>I os. Inr (ostream_write os (wb I)))"
proof (induction n)
  case 0
  show ?case by (intro ext) simp
next
  case (Suc n)
  show ?case
    by (intro ext)
      (simp only: SingleFileBuilder_call.simps visit_gen.simps Suc Let_def sum.case)
qed

lemma recorded_Node:
  "recorded c (Node i k ts) \<longleftrightarrow>
     symbols c i = Some (tree_info (Node i k ts)) \<and> (\<forall>t\<in>set ts. recorded c t)"
  by (auto simp: recorded_def list_all_iff)

lemma depth_child: "t \<in> set ts \<Longrightarrow> depth t \<le> foldr (\<lambda>t m. max (depth t) m) ts 0"
  by (induction ts) auto

lemma depth_pos: "0 < depth t"
  by (cases t) simp

lemma below_Node:
  assumes "depth (Node i k vs) \<le> Suc n" and "recorded c (Node i k vs)"
  shows "\<forall>v\<in>set vs. depth v \<le> n \<and> recorded c v"
proof
  fix v
  assume v: "v \<in> set vs"
  from assms(1) have "foldr (\<lambda>t m. max (depth t) m) vs 0 \<le> n" by simp
  with depth_child [OF v] have "depth v \<le> n" by simp
  moreover from assms(2) v have "recorded c v" by (simp add: recorded_Node)
  ultimately show "depth v \<le> n \<and> recorded c v" ..
qed

lemma traverse_trees:
  "(\<forall>t\<in>set ts. depth t \<le> n \<and> recorded c t) \<Longrightarrow>
     traverse_members c (visit_gen n c act) (map tree_id ts) s
       = run_all act (concat (map visits ts)) s"
proof (induction n arbitrary: ts s)
  case 0
  have "ts = []"
  proof (cases ts)
    case (Cons t us)
    with 0 have "depth t \<le> 0" by simp
    with depth_pos [of t] show ?thesis by simp
  qed simp
  then show ?case by simp
next
  case (Suc n)
  from Suc.prems show ?case
  proof (induction ts arbitrary: s)
    case Nil
    show ?case by simp
  next
    case (Cons t us)
    obtain i k vs where t: "t = Node i k vs" by (cases t)
    from Cons.prems t have rec: "symbols c i = Some (tree_info t)"
      by (simp add: recorded_Node)
    from Cons.prems t have sub: "\<forall>v\<in>set vs. depth v \<le> n \<and> recorded c v"
      by (intro below_Node [of i k vs]) simp_all
    have inner: "traverse_members c (visit_gen n c act) (map tree_id vs) s1
        = run_all act (concat (map visits vs)) s1" for s1
      using Suc.IH [OF sub] .
    have visit: "visit_gen (Suc n) c act (tree_info t) s = run_all act (visits t) s"
      using inner by (simp add: t isRecord_def Corpus_traverse_def split: sum.splits)
    from Cons.prems have rest: "\<forall>u\<in>set us. depth u \<le> Suc n \<and> recorded c u" by simp
    show ?case
      using rec visit Cons.IH [OF rest]
      by (simp add: t Corpus_get_def run_all_append split: sum.splits)
  qed
qed

lemma globalNamespace_root:
  assumes "is_tree c t"
  shows "globalNamespace c = Inr (tree_info t)"
proof -
  obtain i k ts where t: "t = Node i k ts" by (cases t)
  from assms t show ?thesis
    by (simp add: is_tree_def globalNamespace_def Corpus_get_def recorded_Node)
qed

lemma traverse_root:
  assumes "is_tree c t" and "depth t \<le> Suc n"
  shows "Corpus_traverse c (tree_info t) (visit_gen n c act) s = run_all act (visited t) s"
proof -
  obtain i k ts where t: "t = Node i k ts" by (cases t)
  from assms t have "\<forall>u\<in>set ts. depth u \<le> n \<and> recorded c u"
    by (intro below_Node [of i k ts]) (simp_all add: is_tree_def)
  from traverse_trees [OF this] show ?thesis
    by (simp add: t Corpus_traverse_def visited_def)
qed

subsection \<open>The symbols visited\<close>

lemma subseq_concat_map:
  "(\<And>t. t \<in> set ts \<Longrightarrow> subseq (f t) (g t)) \<Longrightarrow>
     subseq (concat (map f ts)) (concat (map g ts))"
  by (induction ts) (auto intro: list_emb_append_mono)

lemma subseq_set: "subseq xs ys \<Longrightarrow> set xs \<subseteq> set ys"
  by (induction rule: list_emb.induct) auto

lemma subseq_distinct: "subseq xs ys \<Longrightarrow> distinct ys \<Longrightarrow> distinct xs"
proof (induction rule: list_emb.induct)
  case (list_emb_Cons2 x y xs ys)
  with subseq_set [of xs ys] show ?case by auto
qed auto

lemma visits_subseq_nodes: "subseq (map Info_id (visits t)) (map tree_id (nodes t))"
proof (induction t)
  case (Node i k ts)
  have "subseq (concat (map (\<lambda>t. map Info_id (visits t)) ts))
          (concat (map (\<lambda>t. map tree_id (nodes t)) ts))"
    by (rule subseq_concat_map) (rule Node.IH)
  then have sub: "subseq (map Info_id (concat (map visits ts)))
      (map tree_id (concat (map nodes ts)))"
    by (simp add: map_concat comp_def)
  show ?case
  proof (cases "k = Record")
    case True
    with sub show ?thesis by simp
  next
    case False
    then show ?thesis by simp
  qed
qed

lemma visited_subseq_nodes:
  "subseq (map Info_id (visited t)) (tl (map tree_id (nodes t)))"
proof -
  obtain i k ts where t: "t = Node i k ts" by (cases t)
  have "subseq (concat (map (\<lambda>t. map Info_id (visits t)) ts))
          (concat (map (\<lambda>t. map tree_id (nodes t)) ts))"
    by (rule subseq_concat_map) (rule visits_subseq_nodes)
  then show ?thesis by (simp add: t visited_def map_concat comp_def)
qed

lemma visited_distinct:
  assumes "distinct (map tree_id (nodes t))"
  shows "distinct (map Info_id (visited t))"
    and "tree_id t \<notin> set (map Info_id (visited t))"
proof -
  obtain i k ts where t: "t = Node i k ts" by (cases t)
  from assms t have d: "distinct (tl (map tree_id (nodes t)))"
    and n: "tree_id t \<notin> set (tl (map tree_id (nodes t)))" by auto
  from visited_subseq_nodes [of t] d show "distinct (map Info_id (visited t))"
    by (rule subseq_distinct)
  from n subseq_set [OF visited_subseq_nodes [of t]]
  show "tree_id t \<notin> set (map Info_id (visited t))"
    by blast
qed

lemma visits_all:
  "list_all (\<lambda>n. case n of Node i k ts \<Rightarrow> ts = [] \<or> k = Record) (nodes t) \<Longrightarrow>
     visits t = map tree_info (nodes t)"
proof (induction t)
  case (Node i k ts)
  have each: "visits u = map tree_info (nodes u)" if "u \<in> set ts" for u
    using that Node.prems by (intro Node.IH) (auto simp: list_all_iff)
  then have "concat (map visits ts) = map tree_info (concat (map nodes ts))"
    by (simp add: map_concat cong: map_cong)
  moreover from Node.prems have "ts = [] \<or> k = Record" by simp
  ultimately show ?case by auto
qed

lemma visited_all:
  assumes "containers_are_records t"
  shows "visited t = map tree_info (tl (nodes t))"
proof -
  obtain i k ts where t: "t = Node i k ts" by (cases t)
  have "visits u = map tree_info (nodes u)" if "u \<in> set ts" for u
    using that assms t
    by (intro visits_all) (auto simp: containers_are_records_def list_all_iff)
  then show ?thesis by (simp add: t visited_def map_concat cong: map_cong)
qed

subsection \<open>The single-file builder on a well-formed corpus\<close>

lemma single_run:
  "run_all (\<lambda>I os. Inr (ostream_write os (wb I))) Is os = Inr (write_all wb Is os)"
  by (induction Is arbitrary: os) (simp_all add: write_all_def)

lemma write_all_calls: "write_calls (write_all wb Is os) = write_calls os @ map wb Is"
  by (induction Is arbitrary: os) (simp_all add: write_all_def ostream_write_def Let_def)

lemma write_all_bad:
  "badbit os \<Longrightarrow> write_all wb Is os = os\<lparr>write_calls := write_calls os @ map wb Is\<rparr>"
  by (induction Is arbitrary: os) (simp_all add: write_all_def ostream_write_def Let_def)

lemma write_all_first_fails:
  assumes "\<not> badbit os" and "sink_fails_at os = Some (length (write_calls os))"
    and "wb I \<noteq> []"
  shows "write_all wb (I # Js) os
    = os\<lparr>write_calls := write_calls os @ map wb (I # Js), badbit := True\<rparr>"
proof -
  let ?os1 = "ostream_write os (wb I)"
  from assms have os1: "?os1 = os\<lparr>write_calls := write_calls os @ [wb I], badbit := True\<rparr>"
    by (simp add: ostream_write_def Let_def)
  have "write_all wb (I # Js) os = write_all wb Js ?os1"
    by (simp add: write_all_def)
  also have "\<dots> = ?os1\<lparr>write_calls := write_calls ?os1 @ map wb Js\<rparr>"
    by (rule write_all_bad) (simp add: os1)
  finally show ?thesis by (simp add: os1)
qed

lemma buildOne_run:
  assumes "is_tree c t" and "depth t \<le> Suc fuel"
  shows "buildOne fuel wb os c = Inr (Error_success, write_all wb (visited t) os)"
proof -
  have "Corpus_traverse c (tree_info t)
          (visit_gen fuel c (\<lambda>I os. Inr (ostream_write os (wb I)))) os
      = run_all (\<lambda>I os. Inr (ostream_write os (wb I))) (visited t) os"
    by (rule traverse_root [OF assms])
  then show ?thesis
    by (simp add: buildOne_def SingleFileBuilder_build_def SingleFileBuilder_call_gen
        single_run globalNamespace_root [OF assms(1)])
qed

subsection \<open>The multi-file builder on a well-formed corpus\<close>

lemma failed_Error_ec: "ec_set ec \<Longrightarrow> failed (Error_ec ec sl)"
  by (simp add: Error_ec_def Error_reason_def appendSourceLocation_def failed_def)

lemma open_report_cong:
  "open_error w1 = open_error w \<Longrightarrow> open_report b w1 I = open_report b w I"
  by (simp add: open_report_def)

lemma task_runs:
  "\<exists>w'. MultiFileBuilder_task b I w = Inr w'
     \<and> open_calls w' = open_calls w @ [filePath b I]
     \<and> open_error w' = open_error w
     \<and> set (console w) \<subseteq> set (console w')
     \<and> dom (files w) \<subseteq> dom (files w')
     \<and> (if ec_set (open_error w (filePath b I)) then open_report b w I \<in> set (console w')
         else filePath b I \<in> dom (files w'))"
  by (auto simp: MultiFileBuilder_task_def raw_fd_ostream_open_def raw_fd_ostream_write_def
      reportError_def failed_Error_ec open_report_def Let_def ec_set_def ec_none_def)

lemma tasks_run:
  "\<exists>w'. run_all (\<lambda>I. TaskGroup_async (MultiFileBuilder_task b I)) Is (g, w) = Inr (g, w')
     \<and> open_calls w' = open_calls w @ map (filePath b) Is
     \<and> open_error w' = open_error w
     \<and> set (console w) \<subseteq> set (console w')
     \<and> dom (files w) \<subseteq> dom (files w')
     \<and> (\<forall>I\<in>set Is. if ec_set (open_error w (filePath b I))
           then open_report b w I \<in> set (console w')
           else filePath b I \<in> dom (files w'))"
proof (induction Is arbitrary: w)
  case Nil
  show ?case by simp
next
  case (Cons I Is)
  from task_runs [of b I w] obtain w1 where
    t: "MultiFileBuilder_task b I w = Inr w1"
    and oc: "open_calls w1 = open_calls w @ [filePath b I]"
    and oe: "open_error w1 = open_error w"
    and co: "set (console w) \<subseteq> set (console w1)"
    and fi: "dom (files w) \<subseteq> dom (files w1)"
    and me: "if ec_set (open_error w (filePath b I))
         then open_report b w I \<in> set (console w1)
         else filePath b I \<in> dom (files w1)"
    by blast
  from Cons.IH [of w1] obtain w' where
    r: "run_all (\<lambda>I. TaskGroup_async (MultiFileBuilder_task b I)) Is (g, w1) = Inr (g, w')"
    and oc': "open_calls w' = open_calls w1 @ map (filePath b) Is"
    and oe': "open_error w' = open_error w1"
    and co': "set (console w1) \<subseteq> set (console w')"
    and fi': "dom (files w1) \<subseteq> dom (files w')"
    and rest: "\<forall>I\<in>set Is. if ec_set (open_error w1 (filePath b I))
           then open_report b w1 I \<in> set (console w')
           else filePath b I \<in> dom (files w')"
    by blast
  have run: "run_all (\<lambda>I. TaskGroup_async (MultiFileBuilder_task b I)) (I # Is) (g, w)
      = Inr (g, w')"
    using t r by (simp add: TaskGroup_async_def)
  have first: "if ec_set (open_error w (filePath b I))
         then open_report b w I \<in> set (console w')
         else filePath b I \<in> dom (files w')"
    using me co' fi' by (auto split: if_splits)
  have others: "\<forall>J\<in>set Is. if ec_set (open_error w (filePath b J))
           then open_report b w J \<in> set (console w')
           else filePath b J \<in> dom (files w')"
    using rest by (simp only: oe open_report_cong [OF oe])
  have calls: "open_calls w' = open_calls w @ map (filePath b) (I # Is)"
    using oc oc' by simp
  have err: "open_error w' = open_error w"
    using oe oe' by simp
  have cons: "set (console w) \<subseteq> set (console w')"
    using co co' by (rule subset_trans)
  have fils: "dom (files w) \<subseteq> dom (files w')"
    using fi fi' by (rule subset_trans)
  have all: "\<forall>J\<in>set (I # Is). if ec_set (open_error w (filePath b J))
           then open_report b w J \<in> set (console w')
           else filePath b J \<in> dom (files w')"
    using first others by simp
  from run calls err cons fils all show ?case by blast
qed

lemma build_run:
  assumes "is_tree c t" and "depth t \<le> Suc fuel"
    and "b = \<lparr>corpus = c, outputPath = out, names = nm, writeBitcode = wb\<rparr>"
  shows "\<exists>w'. build fuel nm wb out c w = Inr (Error_success, w')
     \<and> open_calls w' = open_calls w @ map (filePath b) (visited t)
     \<and> (\<forall>I\<in>set (visited t).
          if ec_set (open_error w (filePath b I))
          then open_report b w I \<in> set (console w')
          else filePath b I \<in> dom (files w'))"
proof -
  let ?act = "\<lambda>I. TaskGroup_async (MultiFileBuilder_task b I)"
  have c: "corpus b = c" by (simp add: assms(3))
  have tr: "Corpus_traverse c (tree_info t) (visit_gen fuel c ?act) (TaskGroup_new, w)
      = run_all ?act (visited t) (TaskGroup_new, w)"
    by (rule traverse_root [OF assms(1,2)])
  from tasks_run [of b "visited t" TaskGroup_new w] obtain w' where
    r: "run_all ?act (visited t) (TaskGroup_new, w) = Inr (TaskGroup_new, w')"
    and oc: "open_calls w' = open_calls w @ map (filePath b) (visited t)"
    and each: "\<forall>I\<in>set (visited t). if ec_set (open_error w (filePath b I))
           then open_report b w I \<in> set (console w')
           else filePath b I \<in> dom (files w')"
    by blast
  have "MultiFileBuilder_build fuel b w = Inr (Error_success, w')"
    using tr r
    by (simp add: MultiFileBuilder_build_def MultiFileBuilder_call_gen c
        globalNamespace_root [OF assms(1)] TaskGroup_wait_def TaskGroup_new_def)
  then have "build fuel nm wb out c w = Inr (Error_success, w')"
    by (simp add: build_def assms(3))
  with oc each show ?thesis by blast
qed

lemma task_files:
  assumes "MultiFileBuilder_task b I w = Inr w'"
  shows "write_error w' = write_error w"
    and "p \<noteq> filePath b I \<Longrightarrow> files w' p = files w p"
    and "\<not> ec_set (open_error w (filePath b I)) \<Longrightarrow> \<not> ec_set (write_error w (filePath b I))
           \<Longrightarrow> files w' (filePath b I) = Some (writeBitcode b I)"
  using assms
  by (auto simp: MultiFileBuilder_task_def raw_fd_ostream_open_def raw_fd_ostream_write_def
      reportError_def Let_def ec_set_def ec_none_def split: if_splits)

lemma tasks_files:
  assumes "run_all (\<lambda>I. TaskGroup_async (MultiFileBuilder_task b I)) Is (g, w) = Inr (g', w')"
    and "distinct (map (filePath b) Is)" and "no_write_fails b w Is"
  shows "write_error w' = write_error w
     \<and> (\<forall>p. p \<notin> set (map (filePath b) Is) \<longrightarrow> files w' p = files w p)
     \<and> (\<forall>I\<in>set Is. \<not> ec_set (open_error w (filePath b I))
           \<longrightarrow> files w' (filePath b I) = Some (writeBitcode b I))"
  using assms
proof (induction Is arbitrary: w g)
  case Nil
  then show ?case by simp
next
  case (Cons I Is)
  from task_runs [of b I w] obtain w1 where
    t: "MultiFileBuilder_task b I w = Inr w1" and oe: "open_error w1 = open_error w"
    by blast
  have step: "TaskGroup_async (MultiFileBuilder_task b I) (g, w) = Inr (g, w1)"
    by (simp add: TaskGroup_async_def t)
  from Cons.prems(1) have r: "run_all (\<lambda>I. TaskGroup_async (MultiFileBuilder_task b I)) Is (g, w1)
      = Inr (g', w')"
    by (simp add: step)
  note tf = task_files [OF t]
  from Cons.prems(3) tf(1) have nw: "no_write_fails b w1 Is"
    and wI: "\<not> ec_set (write_error w (filePath b I))"
    by (simp_all add: no_write_fails_def)
  from Cons.prems(2) have d: "distinct (map (filePath b) Is)"
    and nin: "filePath b I \<notin> set (map (filePath b) Is)" by simp_all
  from Cons.IH [OF r d nw] have
    we: "write_error w' = write_error w1"
    and fr: "\<And>p. p \<notin> set (map (filePath b) Is) \<Longrightarrow> files w' p = files w1 p"
    and ct: "\<And>J. J \<in> set Is \<Longrightarrow> \<not> ec_set (open_error w1 (filePath b J))
           \<Longrightarrow> files w' (filePath b J) = Some (writeBitcode b J)"
    by blast+
  have a: "write_error w' = write_error w"
    using we tf(1) by simp
  have b: "files w' p = files w p" if "p \<notin> set (map (filePath b) (I # Is))" for p
  proof -
    from that have "p \<noteq> filePath b I" and "p \<notin> set (map (filePath b) Is)" by simp_all
    then show ?thesis using fr tf(2) by simp
  qed
  have c: "files w' (filePath b J) = Some (writeBitcode b J)"
    if "J \<in> set (I # Is)" and "\<not> ec_set (open_error w (filePath b J))" for J
  proof (cases "J \<in> set Is")
    case True
    with that(2) oe show ?thesis by (simp add: ct)
  next
    case False
    with that(1) have J: "J = I" by simp
    from fr [OF nin] have "files w' (filePath b I) = files w1 (filePath b I)" .
    also from that(2) wI have "\<dots> = Some (writeBitcode b I)"
      unfolding J by (rule tf(3))
    finally show ?thesis by (simp add: J)
  qed
  from a b c show ?case by blast
qed

lemma build_files:
  assumes "is_tree c t" and "depth t \<le> Suc fuel"
    and "b = \<lparr>corpus = c, outputPath = out, names = nm, writeBitcode = wb\<rparr>"
    and "build fuel nm wb out c w = Inr (e, w')"
    and "distinct (map (filePath b) (visited t))" and "no_write_fails b w (visited t)"
  shows "\<forall>I\<in>set (visited t). \<not> ec_set (open_error w (filePath b I))
           \<longrightarrow> files w' (filePath b I) = Some (wb I)"
proof -
  let ?act = "\<lambda>I. TaskGroup_async (MultiFileBuilder_task b I)"
  have c: "corpus b = c" and wb: "writeBitcode b = wb" by (simp_all add: assms(3))
  have tr: "Corpus_traverse c (tree_info t) (visit_gen fuel c ?act) (TaskGroup_new, w)
      = run_all ?act (visited t) (TaskGroup_new, w)"
    by (rule traverse_root [OF assms(1,2)])
  from tasks_run [of b "visited t" TaskGroup_new w] obtain w1 where
    r: "run_all ?act (visited t) (TaskGroup_new, w) = Inr (TaskGroup_new, w1)"
    by blast
  have "MultiFileBuilder_build fuel b w = Inr (Error_success, w1)"
    using tr r
    by (simp add: MultiFileBuilder_build_def MultiFileBuilder_call_gen c
        globalNamespace_root [OF assms(1)] TaskGroup_wait_def TaskGroup_new_def)
  then have "build fuel nm wb out c w = Inr (Error_success, w1)"
    by (simp add: build_def assms(3))
  with assms(4) have "w1 = w'" by simp
  with tasks_files [OF r assms(5,6)] show ?thesis by (simp add: wb)
qed

subsection \<open>The examples\<close>

lemma is_tree_nested_namespaces: "is_tree (corpus_of nested_namespaces) nested_namespaces"
  by (simp add: is_tree_def recorded_def corpus_of_def nested_namespaces_def)

lemma is_tree_class_and_function: "is_tree (corpus_of class_and_function) class_and_function"
  by (simp add: is_tree_def recorded_def corpus_of_def class_and_function_def)

lemma visited_class_and_function:
  "visited class_and_function =
     [\<lparr>Info_id = 1, Info_Kind = Record, Members = [2]\<rparr>,
      \<lparr>Info_id = 2, Info_Kind = Function, Members = []\<rparr>,
      \<lparr>Info_id = 3, Info_Kind = Function, Members = []\<rparr>]"
  by (simp add: visited_def class_and_function_def)

lemmas builder_defs =
  buildOne_def SingleFileBuilder_build_def globalNamespace_def Corpus_get_def
  Corpus_traverse_def corpus_of_def isRecord_def ostream_write_def Let_def
  ex_writeBitcode_def ex_names_def Error_success_def Error_default_def
  build_def MultiFileBuilder_build_def TaskGroup_async_def TaskGroup_new_def
  TaskGroup_wait_def MultiFileBuilder_task_def raw_fd_ostream_open_def
  raw_fd_ostream_write_def reportError_def filePath_def path_append_def is_separator_def
  Error_ec_def Error_reason_def appendSourceLocation_def here_def failed_def ec_set_def
  ec_none_def

subsection \<open>Claims about the builders\<close>

text \<open>
  C8, as stated: the traversal visits every reachable symbol exactly once. A build starts
  with \<^verbatim>\<open>corpus_.traverse(corpus_.globalNamespace(), *this)\<close>, so the visitor is never called
  with the global namespace itself: on the corpus with class \<open>A\<close>, its member \<open>m\<close> and the
  function \<open>f\<close>, three encodings are written for four symbols. And in the well-formed
  corpus where the global namespace holds a namespace \<open>A\<close> that holds a function \<open>m\<close>,
  the single-stream build encodes \<open>A\<close> alone and the multi-artifact build opens the file
  of \<open>A\<close> alone: the visitor is never called with \<open>m\<close>.
\<close>

theorem traversal_counterexample:
  "is_tree (corpus_of class_and_function) class_and_function
   \<and> buildOne (Suc (Suc 0)) ex_writeBitcode good_sink (corpus_of class_and_function)
       = Inr (Error_success,
           \<lparr>written = ''<A><m><f>'', badbit = False, write_calls = [''<A>'', ''<m>'', ''<f>''],
            sink_fails_at = None\<rparr>)
   \<and> is_tree (corpus_of nested_namespaces) nested_namespaces
   \<and> buildOne (Suc 0) ex_writeBitcode good_sink (corpus_of nested_namespaces)
       = Inr (Error_success,
           \<lparr>written = ''<A>'', badbit = False, write_calls = [''<A>''], sink_fails_at = None\<rparr>)
   \<and> build (Suc 0) ex_names ex_writeBitcode ''out'' (corpus_of nested_namespaces)
         (read_only ''none'')
       = Inr (Error_success,
           (read_only ''none'')
             \<lparr>files := [''out/A.bc'' \<mapsto> ''<A>''], open_calls := [''out/A.bc'']\<rparr>)"
  by (simp add: is_tree_nested_namespaces is_tree_class_and_function)
    (simp add: builder_defs nested_namespaces_def class_and_function_def good_sink_def
      read_only_def)

text \<open>
  C8, amended. For every well-formed corpus (a tree rooted at the global namespace, with
  pairwise distinct identifiers) and enough fuel for its depth, both builds return, and
  the visitor of each is called, in the same order, exactly with the symbols \<open>visited t\<close>:
  the members of the global namespace and, below each visited record, its members.
  No symbol is among them twice, the global namespace is not among them, and when every
  container below the root is a record they are all the symbols of the corpus but the
  root.
\<close>

theorem traversal_visits_once:
  assumes "is_tree c t" and "depth t \<le> Suc fuel"
  shows "(\<exists>os'. buildOne fuel wb os c = Inr (Error_success, os')
            \<and> write_calls os' = write_calls os @ map wb (visited t))
    \<and> (\<exists>e w'. build fuel nm wb out c w = Inr (e, w')
            \<and> open_calls w' = open_calls w
                 @ map (filePath \<lparr>corpus = c, outputPath = out, names = nm, writeBitcode = wb\<rparr>)
                     (visited t))
    \<and> distinct (map Info_id (visited t))
    \<and> tree_id t \<notin> set (map Info_id (visited t))
    \<and> (containers_are_records t \<longrightarrow> visited t = map tree_info (tl (nodes t)))"
proof -
  have one: "\<exists>os'. buildOne fuel wb os c = Inr (Error_success, os')
      \<and> write_calls os' = write_calls os @ map wb (visited t)"
    using buildOne_run [OF assms] by (simp add: write_all_calls)
  have many: "\<exists>e w'. build fuel nm wb out c w = Inr (e, w')
      \<and> open_calls w' = open_calls w
           @ map (filePath \<lparr>corpus = c, outputPath = out, names = nm, writeBitcode = wb\<rparr>)
               (visited t)"
    using build_run [OF assms refl, where w = w and out = out and nm = nm and wb = wb] by blast
  from assms(1) have d: "distinct (map tree_id (nodes t))"
    by (simp add: is_tree_def)
  from one many visited_distinct [OF d] visited_all [of t] show ?thesis by blast
qed

theorem traversal_visits_once_witness:
  "is_tree (corpus_of class_and_function) class_and_function
   \<and> depth class_and_function \<le> Suc (Suc (Suc 0))
   \<and> containers_are_records class_and_function
   \<and> (\<exists>os'. buildOne (Suc (Suc 0)) ex_writeBitcode good_sink (corpus_of class_and_function)
              = Inr (Error_success, os')
          \<and> write_calls os' = [''<A>'', ''<m>'', ''<f>''])
   \<and> (\<exists>e w'. build (Suc (Suc 0)) ex_names ex_writeBitcode ''out''
                (corpus_of class_and_function) (read_only ''out/m.bc'') = Inr (e, w')
          \<and> open_calls w' = [''out/A.bc'', ''out/m.bc'', ''out/f.bc''])
   \<and> map Info_id (visited class_and_function) = [1, 2, 3]"
proof -
  have h1: "is_tree (corpus_of class_and_function) class_and_function"
    by (rule is_tree_class_and_function)
  have h2: "depth class_and_function \<le> Suc (Suc (Suc 0))"
    by (simp add: class_and_function_def)
  have h3: "containers_are_records class_and_function"
    by (simp add: containers_are_records_def class_and_function_def)
  have v: "map ex_writeBitcode (visited class_and_function) = [''<A>'', ''<m>'', ''<f>'']"
    by (simp add: visited_class_and_function ex_writeBitcode_def ex_names_def)
  have p: "map (filePath \<lparr>corpus = corpus_of class_and_function, outputPath = ''out'',
        names = ex_names, writeBitcode = ex_writeBitcode\<rparr>) (visited class_and_function)
      = [''out/A.bc'', ''out/m.bc'', ''out/f.bc'']"
    by (simp add: visited_class_and_function filePath_def path_append_def is_separator_def
        ex_names_def)
  have i: "map Info_id (visited class_and_function) = [1, 2, 3]"
    by (simp add: visited_class_and_function)
  have g: "write_calls good_sink = []" and r: "open_calls (read_only ''out/m.bc'') = []"
    by (simp_all add: good_sink_def read_only_def)
  from traversal_visits_once [OF h1 h2, where wb = ex_writeBitcode and os = good_sink
      and nm = ex_names and out = "''out''" and w = "read_only ''out/m.bc''"]
  have "(\<exists>os'. buildOne (Suc (Suc 0)) ex_writeBitcode good_sink (corpus_of class_and_function)
              = Inr (Error_success, os')
          \<and> write_calls os' = [''<A>'', ''<m>'', ''<f>''])"
    and "(\<exists>e w'. build (Suc (Suc 0)) ex_names ex_writeBitcode ''out''
                (corpus_of class_and_function) (read_only ''out/m.bc'') = Inr (e, w')
          \<and> open_calls w' = [''out/A.bc'', ''out/m.bc'', ''out/f.bc''])"
    unfolding v p g r by simp_all
  with h1 h2 h3 i show ?thesis by blast
qed

text \<open>
  C3, as stated: when the first write fails, no further symbol is processed and a
  non-empty Error is returned. On the corpus with class \<open>A\<close>, its member \<open>m\<close> and the
  function \<open>f\<close>, with a sink that refuses the first write, \<^verbatim>\<open>buildOne\<close> still encodes and
  writes \<open>m\<close> and \<open>f\<close>, and returns \<^verbatim>\<open>Error::success()\<close>.
\<close>

theorem buildOne_counterexample:
  "buildOne (Suc (Suc 0)) ex_writeBitcode failing_sink (corpus_of class_and_function)
     = Inr (Error_success,
         \<lparr>written = [], badbit = True, write_calls = [''<A>'', ''<m>'', ''<f>''],
          sink_fails_at = Some 0\<rparr>)
   \<and> \<not> failed Error_success"
  by (simp add: builder_defs class_and_function_def failing_sink_def)

text \<open>
  C3, amended. For every well-formed corpus, a single-stream build in which the write
  of the first visited symbol's encoding (at least one byte) fails appends nothing to
  the stream: the failed write sets the stream's \<open>badbit\<close>, and every later write does
  nothing. The build does not look at the stream: it encodes every visited symbol and
  calls \<^verbatim>\<open>write\<close> for it, and returns \<^verbatim>\<open>Error::success()\<close>.
\<close>

theorem buildOne_first_write_fails:
  assumes "is_tree c t" and "depth t \<le> Suc fuel"
    and "\<not> badbit os" and "sink_fails_at os = Some (length (write_calls os))"
    and "visited t = I # Is" and "wb I \<noteq> []"
  shows "\<exists>os'. buildOne fuel wb os c = Inr (Error_success, os')
     \<and> \<not> failed Error_success
     \<and> written os' = written os
     \<and> write_calls os' = write_calls os @ map wb (visited t)
     \<and> badbit os'"
  using buildOne_run [OF assms(1,2), of wb os]
    write_all_first_fails [where wb = wb and I = I and os = os and Js = Is, OF assms(3,4,6)]
  by (simp add: assms(5) failed_def Error_success_def Error_default_def)

theorem buildOne_first_write_fails_witness:
  "is_tree (corpus_of class_and_function) class_and_function
   \<and> depth class_and_function \<le> Suc (Suc (Suc 0))
   \<and> \<not> badbit failing_sink
   \<and> sink_fails_at failing_sink = Some (length (write_calls failing_sink))
   \<and> visited class_and_function =
        \<lparr>Info_id = 1, Info_Kind = Record, Members = [2]\<rparr>
        # [\<lparr>Info_id = 2, Info_Kind = Function, Members = []\<rparr>,
           \<lparr>Info_id = 3, Info_Kind = Function, Members = []\<rparr>]
   \<and> ex_writeBitcode \<lparr>Info_id = 1, Info_Kind = Record, Members = [2]\<rparr> \<noteq> []
   \<and> (\<exists>os'. buildOne (Suc (Suc 0)) ex_writeBitcode failing_sink (corpus_of class_and_function)
              = Inr (Error_success, os')
          \<and> written os' = []
          \<and> write_calls os' = [''<A>'', ''<m>'', ''<f>'']
          \<and> badbit os')"
proof -
  have h1: "is_tree (corpus_of class_and_function) class_and_function"
    by (rule is_tree_class_and_function)
  have h2: "depth class_and_function \<le> Suc (Suc (Suc 0))"
    by (simp add: class_and_function_def)
  have h3: "\<not> badbit failing_sink"
    by (simp add: failing_sink_def)
  have h4: "sink_fails_at failing_sink = Some (length (write_calls failing_sink))"
    by (simp add: failing_sink_def)
  have h5: "visited class_and_function =
        \<lparr>Info_id = 1, Info_Kind = Record, Members = [2]\<rparr>
        # [\<lparr>Info_id = 2, Info_Kind = Function, Members = []\<rparr>,
           \<lparr>Info_id = 3, Info_Kind = Function, Members = []\<rparr>]"
    by (rule visited_class_and_function)
  have h6: "ex_writeBitcode \<lparr>Info_id = 1, Info_Kind = Record, Members = [2]\<rparr> \<noteq> []"
    by (simp add: ex_writeBitcode_def)
  have v: "map ex_writeBitcode (visited class_and_function) = [''<A>'', ''<m>'', ''<f>'']"
    by (simp add: visited_class_and_function ex_writeBitcode_def ex_names_def)
  have g: "write_calls failing_sink = []" "written failing_sink = []"
    by (simp_all add: failing_sink_def)
  from buildOne_first_write_fails [where wb = ex_writeBitcode
      and I = "\<lparr>Info_id = 1, Info_Kind = Record, Members = [2]\<rparr>", OF h1 h2 h3 h4 h5 h6]
  have "\<exists>os'. buildOne (Suc (Suc 0)) ex_writeBitcode failing_sink (corpus_of class_and_function)
              = Inr (Error_success, os')
          \<and> written os' = []
          \<and> write_calls os' = [''<A>'', ''<m>'', ''<f>'']
          \<and> badbit os'"
    unfolding v g by auto
  with h1 h2 h3 h4 h5 h6 show ?thesis by blast
qed

text \<open>
  C1, as stated: when the open step of a symbol fails, \<^verbatim>\<open>build\<close> returns a non-empty
  aggregate Error that references the failing path. On the corpus with class \<open>A\<close>, its
  member \<open>m\<close> and the function \<open>f\<close>, with \<open>out/m.bc\<close> read-only, \<^verbatim>\<open>build\<close> writes the two
  other files, prints the failure on the console, and returns \<^verbatim>\<open>Error::success()\<close>.
\<close>

theorem build_counterexample:
  "build (Suc (Suc 0)) ex_names ex_writeBitcode ''out'' (corpus_of class_and_function)
       (read_only ''out/m.bc'')
     = Inr (Error_success,
         (read_only ''out/m.bc'')
           \<lparr>files := [''out/A.bc'' \<mapsto> ''<A>'', ''out/f.bc'' \<mapsto> ''<f>''],
            console := [''Could not open \"out/m.bc\" because Permission denied (BitcodeGenerator.cpp)''],
            open_calls := [''out/A.bc'', ''out/m.bc'', ''out/f.bc'']\<rparr>)
   \<and> \<not> failed Error_success"
  by (simp add: builder_defs class_and_function_def read_only_def)

text \<open>
  C1, amended. For every well-formed corpus, the multi-artifact build tries to open the
  file of every visited symbol, whatever happens to the others, and returns normally.
  A symbol whose file cannot be opened is reported on the console, in a line that holds
  its path (\<open>open_report\<close>); the file of every other visited symbol exists afterwards,
  and holds the symbol's encoding when the paths of the visited symbols are distinct.
  The Error that \<^verbatim>\<open>build\<close> returns aggregates only what the task group collected, which
  is nothing: it is \<^verbatim>\<open>Error::success()\<close> whether or not a file could be opened. (Builds in
  which a write fails are left out: the task reads \<^verbatim>\<open>os.error()\<close> before it writes.)
\<close>

theorem build_reports_open_failures:
  assumes "is_tree c t" and "depth t \<le> Suc fuel"
    and "b = \<lparr>corpus = c, outputPath = out, names = nm, writeBitcode = wb\<rparr>"
    and "no_write_fails b w (visited t)"
  shows "\<exists>w'. build fuel nm wb out c w = Inr (Error_success, w')
     \<and> \<not> failed Error_success
     \<and> open_calls w' = open_calls w @ map (filePath b) (visited t)
     \<and> (\<forall>I\<in>set (visited t).
          if ec_set (open_error w (filePath b I))
          then open_report b w I \<in> set (console w') \<and> sublist (filePath b I) (open_report b w I)
          else filePath b I \<in> dom (files w'))
     \<and> (distinct (map (filePath b) (visited t)) \<longrightarrow>
          (\<forall>I\<in>set (visited t). \<not> ec_set (open_error w (filePath b I))
             \<longrightarrow> files w' (filePath b I) = Some (wb I)))"
proof -
  have sub: "sublist (filePath b I) (open_report b w I)" for I
    unfolding open_report_def sublist_def by blast
  have ok: "\<not> failed Error_success"
    by (simp add: failed_def Error_success_def Error_default_def)
  from build_run [OF assms(1,2,3), of w] obtain w' where
    r: "build fuel nm wb out c w = Inr (Error_success, w')"
    and oc: "open_calls w' = open_calls w @ map (filePath b) (visited t)"
    and each: "\<forall>I\<in>set (visited t).
          if ec_set (open_error w (filePath b I))
          then open_report b w I \<in> set (console w')
          else filePath b I \<in> dom (files w')"
    by blast
  from each sub have each': "\<forall>I\<in>set (visited t).
          if ec_set (open_error w (filePath b I))
          then open_report b w I \<in> set (console w') \<and> sublist (filePath b I) (open_report b w I)
          else filePath b I \<in> dom (files w')"
    by auto
  have content: "distinct (map (filePath b) (visited t)) \<longrightarrow>
          (\<forall>I\<in>set (visited t). \<not> ec_set (open_error w (filePath b I))
             \<longrightarrow> files w' (filePath b I) = Some (wb I))"
    using build_files [OF assms(1,2,3) r _ assms(4)] by blast
  from r ok oc each' content show ?thesis by blast
qed

theorem build_reports_open_failures_witness:
  "is_tree (corpus_of class_and_function) class_and_function
   \<and> depth class_and_function \<le> Suc (Suc (Suc 0))
   \<and> no_write_fails \<lparr>corpus = corpus_of class_and_function, outputPath = ''out'',
        names = ex_names, writeBitcode = ex_writeBitcode\<rparr> (read_only ''out/m.bc'')
        (visited class_and_function)
   \<and> (\<exists>w'. build (Suc (Suc 0)) ex_names ex_writeBitcode ''out''
              (corpus_of class_and_function) (read_only ''out/m.bc'') = Inr (Error_success, w')
          \<and> open_calls w' = [''out/A.bc'', ''out/m.bc'', ''out/f.bc'']
          \<and> ''Could not open \"out/m.bc\" because Permission denied (BitcodeGenerator.cpp)''
               \<in> set (console w')
          \<and> files w' ''out/A.bc'' = Some ''<A>''
          \<and> files w' ''out/f.bc'' = Some ''<f>'')"
proof -
  let ?b = "\<lparr>corpus = corpus_of class_and_function, outputPath = ''out'',
        names = ex_names, writeBitcode = ex_writeBitcode\<rparr>"
  have h1: "is_tree (corpus_of class_and_function) class_and_function"
    by (rule is_tree_class_and_function)
  have h2: "depth class_and_function \<le> Suc (Suc (Suc 0))"
    by (simp add: class_and_function_def)
  have h4: "no_write_fails ?b (read_only ''out/m.bc'') (visited class_and_function)"
    by (simp add: no_write_fails_def visited_class_and_function read_only_def ec_set_def
        ec_none_def)
  have p: "map (filePath ?b) (visited class_and_function)
      = [''out/A.bc'', ''out/m.bc'', ''out/f.bc'']"
    by (simp add: visited_class_and_function filePath_def path_append_def is_separator_def
        ex_names_def)
  have d: "distinct (map (filePath ?b) (visited class_and_function))"
    unfolding p by simp
  from build_reports_open_failures [OF h1 h2 refl h4]
  obtain w' where
    r: "build (Suc (Suc 0)) ex_names ex_writeBitcode ''out''
          (corpus_of class_and_function) (read_only ''out/m.bc'') = Inr (Error_success, w')"
    and oc: "open_calls w' = open_calls (read_only ''out/m.bc'')
          @ map (filePath ?b) (visited class_and_function)"
    and each: "\<forall>I\<in>set (visited class_and_function).
          if ec_set (open_error (read_only ''out/m.bc'') (filePath ?b I))
          then open_report ?b (read_only ''out/m.bc'') I \<in> set (console w')
             \<and> sublist (filePath ?b I) (open_report ?b (read_only ''out/m.bc'') I)
          else filePath ?b I \<in> dom (files w')"
    and content: "distinct (map (filePath ?b) (visited class_and_function)) \<longrightarrow>
          (\<forall>I\<in>set (visited class_and_function).
             \<not> ec_set (open_error (read_only ''out/m.bc'') (filePath ?b I))
             \<longrightarrow> files w' (filePath ?b I) = Some (ex_writeBitcode I))"
    by blast
  from oc have oc': "open_calls w' = [''out/A.bc'', ''out/m.bc'', ''out/f.bc'']"
    unfolding p by (simp add: read_only_def)
  from each have rep:
    "''Could not open \"out/m.bc\" because Permission denied (BitcodeGenerator.cpp)''
       \<in> set (console w')"
    by (simp add: visited_class_and_function filePath_def path_append_def is_separator_def
        ex_names_def read_only_def ec_set_def ec_none_def open_report_def Error_ec_def
        Error_reason_def appendSourceLocation_def here_def)
  from content d have "files w' ''out/A.bc'' = Some ''<A>''"
    and "files w' ''out/f.bc'' = Some ''<f>''"
    by (simp_all add: visited_class_and_function filePath_def path_append_def is_separator_def
        ex_names_def ex_writeBitcode_def read_only_def ec_set_def ec_none_def)
  with h1 h2 h4 r oc' rep show ?thesis by blast
qed

end
